theory Spec2Isabelle
  imports Main "HOL-Library.Sublist" "HOL-Library.AList"
begin

section \<open>CPPNotes: a shallow embedding of main.cpp\<close>

text \<open>
  The program is a prompt loop over a directory of note files. The embedding makes its
  effects explicit: the save directory, the system clock, the lines typed on standard
  input and the text written to standard output are fields of a record that every
  operation takes and returns.

  Conventions of the model:
  \<^item> a \<open>std::string\<close> is a \<open>string\<close> (a list of bytes);
  \<open>string::npos\<close> is the \<open>None\<close> of an index option, and the unsigned
    wrap-around of \<open>npos + k\<close> to \<open>k - 1\<close> is written out where the source computes it;
  \<^item> an exception that nothing catches ends the process through \<open>std::terminate\<close>:
    the outcome \<open>Abort\<close>;
  \<^item> standard input is the list of lines typed so far, each ended by a newline. When
    the list runs out the program is blocked in \<open>getline\<close>: the outcome
    \<open>AwaitInput\<close>. End of file on standard input is outside the model;
  \<^item> the save directory either is missing or holds files. A file of an existing
    directory can always be opened; opening fails exactly when the file or the
    directory is absent. Files are read and written as bytes, without translation
    of newlines. Permissions and limits of the file system are outside the model.
\<close>

subsection \<open>Constants\<close>

abbreviation nl :: char where
  "nl \<equiv> CHR 0x0A"

abbreviation apostrophe :: char where
  "apostrophe \<equiv> CHR 0x27"

definition noteExt :: string where
  "noteExt = ''.cppn''"

definition headSep :: string where
  "headSep = '' | ''"

subsection \<open>The state of the world\<close>

datatype event = Print string | ClearScreen

text \<open>
  The entries of the directory are kept as an association list from file name to
  content, in the order the directory enumerates them.
\<close>

datatype savedir = Missing | Dir "(string \<times> string) list"

record world =
  dir :: savedir
  clock :: "nat \<Rightarrow> string"
  ticks :: nat
  input :: "string list"
  out :: "event list"

datatype exn = out_of_range | filesystem_error

datatype 'a outcome = Return 'a | Abort exn | AwaitInput

record Note =
  name :: string
  timestamp :: string
  content :: string

definition cout :: "string \<Rightarrow> world \<Rightarrow> world" where
  "cout s w = w\<lparr>out := out w @ [Print s]\<rparr>"

definition clearScreen :: "world \<Rightarrow> world" where
  "clearScreen w = w\<lparr>out := out w @ [ClearScreen]\<rparr>"

text \<open>
  \<open>getCurrentTime\<close> formats the local time as \<open>%Y-%m-%d [%H:%M]\<close>. The model takes
  the formatted readings of the clock as given: the \<open>k\<close>-th call returns \<open>clock w k\<close>.
\<close>

definition getCurrentTime :: "world \<Rightarrow> string \<times> world" where
  "getCurrentTime w = (clock w (ticks w), w\<lparr>ticks := Suc (ticks w)\<rparr>)"

subsection \<open>The file system\<close>

definition exists_dir :: "savedir \<Rightarrow> bool" where
  "exists_dir d = (case d of Missing \<Rightarrow> False | Dir fs \<Rightarrow> True)"

definition read_file :: "savedir \<Rightarrow> string \<Rightarrow> string option" where
  "read_file d p = (case d of Missing \<Rightarrow> None | Dir fs \<Rightarrow> map_of fs p)"

definition exists_file :: "savedir \<Rightarrow> string \<Rightarrow> bool" where
  "exists_file d p = (read_file d p \<noteq> None)"

text \<open>Opening for writing truncates or creates the file; it fails without a directory.\<close>

definition write_file :: "savedir \<Rightarrow> string \<Rightarrow> string \<Rightarrow> savedir option" where
  "write_file d p c = (case d of Missing \<Rightarrow> None | Dir fs \<Rightarrow> Some (Dir (AList.update p c fs)))"

definition remove_file :: "savedir \<Rightarrow> string \<Rightarrow> savedir option" where
  "remove_file d p =
     (case d of
        Missing \<Rightarrow> None
      | Dir fs \<Rightarrow> (if map_of fs p = None then None else Some (Dir (AList.delete p fs))))"

text \<open>
  The constructor of \<open>directory_iterator\<close> without an \<open>error_code\<close> argument throws
  \<open>filesystem_error\<close> when the directory cannot be opened.
\<close>

definition directory_iterator :: "savedir \<Rightarrow> exn + (string \<times> string) list" where
  "directory_iterator d = (case d of Missing \<Rightarrow> Inl filesystem_error | Dir fs \<Rightarrow> Inr fs)"

text \<open>\<open>path::stem\<close>: the file name up to its last period, unless that leaves nothing.\<close>

definition stem :: "string \<Rightarrow> string" where
  "stem f =
     (if CHR ''.'' \<notin> set f \<or> f = ''..'' then f
      else (let base = rev (drop 1 (dropWhile (\<lambda>c. c \<noteq> CHR ''.'') (rev f)))
            in if base = [] then f else base))"

subsection \<open>Strings\<close>

text \<open>\<open>text.find(pat)\<close>: the index of the first occurrence, \<open>None\<close> for \<open>npos\<close>.\<close>

fun str_find :: "string \<Rightarrow> string \<Rightarrow> nat option" where
  "str_find [] pat = (if pat = [] then Some 0 else None)"
| "str_find (c # cs) pat =
     (if prefix pat (c # cs) then Some 0 else map_option Suc (str_find cs pat))"

text \<open>\<open>text.substr(pos)\<close> throws \<open>out_of_range\<close> when \<open>pos > text.size()\<close>.\<close>

definition substr :: "string \<Rightarrow> nat \<Rightarrow> exn + string" where
  "substr s pos = (if pos > length s then Inl out_of_range else Inr (drop pos s))"

text \<open>
  \<open>getline\<close> on a stream holding \<open>s\<close>: the line up to the first newline, and what is
  left of the stream behind that newline. The extraction succeeds unless the stream is
  at its end.
\<close>

definition getline :: "string \<Rightarrow> string \<times> string" where
  "getline s = (takeWhile (\<lambda>c. c \<noteq> nl) s, drop 1 (dropWhile (\<lambda>c. c \<noteq> nl) s))"

text \<open>The whitespace that \<open>operator>>\<close> skips in the C locale.\<close>

definition isspace :: "char \<Rightarrow> bool" where
  "isspace c = (c \<in> set [CHR '' '', CHR 0x09, CHR 0x0A, CHR 0x0B, CHR 0x0C, CHR 0x0D])"

text \<open>
  \<open>countWords\<close>: each \<open>stream >> word\<close> skips whitespace and then takes the characters
  up to the next whitespace; it fails when only whitespace is left. The counter is an
  \<open>int\<close> in the source; a line of more than \<open>2^31 - 1\<close> words is outside the model.
\<close>

function countWords_loop :: "string \<Rightarrow> nat \<Rightarrow> nat" where
  "countWords_loop stream count =
     (if dropWhile isspace stream = [] then count
      else countWords_loop (dropWhile (\<lambda>c. \<not> isspace c) (dropWhile isspace stream)) (count + 1))"
  by pat_completeness auto
termination
proof (relation "measure (\<lambda>(s, c). length s)")
  show "wf (measure (\<lambda>(s, c). length s))" by simp
next
  fix stream :: string and count :: nat
  assume ne: "dropWhile isspace stream \<noteq> []"
  then have "\<not> isspace (hd (dropWhile isspace stream))"
    by (rule hd_dropWhile)
  with ne have "length (dropWhile (\<lambda>c. \<not> isspace c) (dropWhile isspace stream))
      < length (dropWhile isspace stream)"
    by (cases "dropWhile isspace stream") (auto simp: le_imp_less_Suc length_dropWhile_le)
  also have "\<dots> \<le> length stream"
    by (rule length_dropWhile_le)
  finally show "((dropWhile (\<lambda>c. \<not> isspace c) (dropWhile isspace stream), count + 1), (stream, count))
      \<in> measure (\<lambda>(s, c). length s)"
    by simp
qed

declare countWords_loop.simps [simp del]

definition countWords :: "string \<Rightarrow> nat" where
  "countWords text = countWords_loop text 0"

definition extractArg :: "string \<Rightarrow> string" where
  "extractArg text =
     (case str_find text '' '' of
        Some firstSpacePos \<Rightarrow> drop (firstSpacePos + 1) text
      | None \<Rightarrow> [])"

fun containsCharsFrom :: "string \<Rightarrow> string \<Rightarrow> bool" where
  "containsCharsFrom [] chars = False"
| "containsCharsFrom (c # text) chars =
     (if str_find chars [c] \<noteq> None then True else containsCharsFrom text chars)"

definition invalidChars :: string where
  "invalidChars = [CHR ''<'', CHR ''>'', CHR '':'', CHR 0x22, CHR ''/'', CHR 0x5C,
                   CHR ''|'', CHR ''?'', CHR ''*'']"

definition validateInput :: "string \<Rightarrow> bool" where
  "validateInput inp =
     (if containsCharsFrom inp invalidChars then False
      else if length inp \<ge> 255 then False
      else True)"

subsection \<open>Saving and editing\<close>

definition saveNote :: "Note \<Rightarrow> world \<Rightarrow> world" where
  "saveNote note w =
     (case write_file (dir w) (name note @ noteExt) (content note) of
        Some d \<Rightarrow> cout (name note @ '' successfully saved!'' @ [nl, nl]) (w\<lparr>dir := d\<rparr>)
      | None \<Rightarrow> cout (''ERROR: '' @ name note @ '' failed to save.'' @ [nl, nl]) w)"

text \<open>
  The reading loop of \<open>openNote\<close> over the lines typed: the new content and the lines
  left, or \<open>None\<close> when the lines run out before the sentinel.
\<close>

fun readLines :: "string list \<Rightarrow> string \<Rightarrow> (string \<times> string list) option" where
  "readLines [] newContent = None"
| "readLines (line # rest) newContent =
     (if line = ''!quit'' then Some (newContent, rest)
      else readLines rest (newContent @ line @ [nl]))"

text \<open>
  \<open>openNote\<close>. When the content has no blank line, \<open>find\<close> returns \<open>npos\<close> and
  \<open>npos + 2\<close> wraps around to \<open>1\<close>. The note is updated in place in the source; no
  caller reads it afterwards, so the model returns the world alone.
\<close>

definition openNote :: "Note \<Rightarrow> world \<Rightarrow> world outcome" where
  "openNote note w =
     (case substr (content note)
             (case str_find (content note) [nl, nl] of
                Some startUserContent \<Rightarrow> startUserContent + 2
              | None \<Rightarrow> 1) of
        Inl e \<Rightarrow> Abort e
      | Inr userContent \<Rightarrow>
          (case readLines (input w) [] of
             None \<Rightarrow> AwaitInput
           | Some (newContent, rest) \<Rightarrow>
               Return (saveNote
                 (note\<lparr>content := name note @ headSep @ timestamp note @ [nl, nl]
                                    @ userContent @ newContent\<rparr>)
                 ((cout userContent
                    (cout (''Type !quit on a new line to exit.'' @ [nl, nl])
                      (cout (name note @ headSep @ timestamp note @ [nl])
                        (clearScreen w))))\<lparr>input := rest\<rparr>))))"

definition createNote :: "string \<Rightarrow> world \<Rightarrow> world outcome" where
  "createNote title w =
     (if exists_file (dir w) (title @ noteExt)
      then Return (cout (''ERROR: '' @ [apostrophe] @ title @ [apostrophe]
                         @ '' already exists.'' @ [nl, nl]) w)
      else (case getCurrentTime w of
              (t, w') \<Rightarrow>
                openNote \<lparr>name = title, timestamp = t, content = title @ headSep @ t @ [nl, nl]\<rparr> w'))"

subsection \<open>Loading\<close>

text \<open>The loop of \<open>loadNote\<close> that reads the lines behind the header.\<close>

function read_rest :: "string \<Rightarrow> string \<Rightarrow> string" where
  "read_rest stream loadedContent =
     (if stream = [] then loadedContent
      else read_rest (snd (getline stream)) (loadedContent @ fst (getline stream) @ [nl]))"
  by pat_completeness auto
termination
proof (relation "measure (\<lambda>(s, c). length s)")
  show "wf (measure (\<lambda>(s, c). length s))" by simp
next
  fix stream loadedContent :: string
  assume "stream \<noteq> []"
  then obtain a list where stream: "stream = a # list"
    by (cases stream) auto
  have "length (dropWhile (\<lambda>c. c \<noteq> nl) list) \<le> length list"
    by (rule length_dropWhile_le)
  with stream have "length (drop 1 (dropWhile (\<lambda>c. c \<noteq> nl) stream)) < length stream"
    by auto
  then show "((snd (getline stream), loadedContent @ fst (getline stream) @ [nl]),
      (stream, loadedContent)) \<in> measure (\<lambda>(s, c). length s)"
    by (simp add: getline_def)
qed

declare read_rest.simps [simp del]

text \<open>
  The note that \<open>loadNote\<close> builds from an opened file. When the header has no
  separator, \<open>find\<close> returns \<open>npos\<close> and \<open>npos + 3\<close> wraps around to \<open>2\<close>.
\<close>

definition loadedNote :: "string \<Rightarrow> bool \<Rightarrow> string \<Rightarrow> exn + Note" where
  "loadedNote title appendMode file =
     (case getline file of
        (head, rest) \<Rightarrow>
          (case substr head
                  (case str_find head headSep of
                     Some sep \<Rightarrow> sep + length headSep
                   | None \<Rightarrow> 2) of
             Inl e \<Rightarrow> Inl e
           | Inr ts \<Rightarrow>
               Inr \<lparr>name = title, timestamp = ts,
                    content = head @ [nl] @ (if appendMode then read_rest rest [] else [nl])\<rparr>))"

definition loadNote :: "string \<Rightarrow> bool \<Rightarrow> world \<Rightarrow> world outcome" where
  "loadNote title appendMode w =
     (case read_file (dir w) (title @ noteExt) of
        Some file \<Rightarrow>
          (case loadedNote title appendMode file of
             Inl e \<Rightarrow> Abort e
           | Inr note \<Rightarrow> openNote note (clearScreen w))
      | None \<Rightarrow>
          Return (cout (''ERROR: '' @ [apostrophe] @ title @ [apostrophe]
                        @ '' does not exist or failed to load.'' @ [nl, nl]) w))"

subsection \<open>Listing and deleting\<close>

definition listNotes :: "world \<Rightarrow> world outcome" where
  "listNotes w =
     (case directory_iterator (dir w) of
        Inl e \<Rightarrow> Abort e
      | Inr dirIter \<Rightarrow>
          (if \<not> exists_dir (dir w)
           then Return (cout (''ERROR: Could not find save directory.'' @ [nl, nl]) w)
           else if dirIter = []
           then Return (cout (''No files found.'' @ [nl, nl]) w)
           else Return (cout [nl] (foldl (\<lambda>v entry. cout (stem (fst entry) @ [nl]) v) w dirIter))))"

definition deleteNote :: "string \<Rightarrow> world \<Rightarrow> world" where
  "deleteNote title w =
     (case remove_file (dir w) (title @ noteExt) of
        Some d \<Rightarrow> cout (title @ '' successfully deleted!'' @ [nl, nl]) (w\<lparr>dir := d\<rparr>)
      | None \<Rightarrow> cout (''ERROR: '' @ title @ '' not found or failed to delete.'' @ [nl, nl]) w)"

subsection \<open>The prompt loop\<close>

text \<open>
  The chain of conditions in the body of the loop of \<open>promptHandler\<close>, as the action
  it selects, and the action carried out.
\<close>

datatype action =
    Exit | Help | Cls | List
  | InvalidFilename string
  | Delete string | Create string | Append string | Overwrite string
  | MissingArgument
  | InvalidCommand string

definition dispatch :: "string \<Rightarrow> action" where
  "dispatch cmd =
     (if cmd = ''exit'' then Exit
      else if cmd = ''help'' then Help
      else if cmd = ''cls'' then Cls
      else if cmd = ''list'' then List
      else if countWords cmd = 2 \<and> \<not> validateInput (extractArg cmd)
        then InvalidFilename (extractArg cmd)
      else if take 4 cmd = ''del '' \<and> countWords cmd = 2 then Delete (extractArg cmd)
      else if take 4 cmd = ''new '' \<and> countWords cmd = 2 then Create (extractArg cmd)
      else if take 4 cmd = ''app '' \<and> countWords cmd = 2 then Append (extractArg cmd)
      else if take 3 cmd = ''ow '' \<and> countWords cmd = 2 then Overwrite (extractArg cmd)
      else if take 3 cmd = ''del'' \<or> take 3 cmd = ''new'' \<or> take 3 cmd = ''app''
              \<or> take 2 cmd = ''ow''
        then MissingArgument
      else InvalidCommand cmd)"

definition helpText :: string where
  "helpText =
     ''- '' @ [apostrophe] @ ''new [note]'' @ [apostrophe] @ '' to create a new note.'' @ [nl] @
     ''- '' @ [apostrophe] @ ''app [note]'' @ [apostrophe] @ '' to append an existing note.'' @ [nl] @
     ''- '' @ [apostrophe] @ ''ow [note]'' @ [apostrophe] @ '' to overwrite an existing note.'' @ [nl] @
     ''- '' @ [apostrophe] @ ''del [note]'' @ [apostrophe] @ '' to delete an existing note.'' @ [nl] @
     ''- '' @ [apostrophe] @ ''cls'' @ [apostrophe] @ '' to clear the screen.'' @ [nl] @
     ''- '' @ [apostrophe] @ ''exit'' @ [apostrophe] @ '' to exit the program.'' @ [nl, nl]"

fun perform :: "action \<Rightarrow> world \<Rightarrow> world outcome" where
  "perform Exit w = Return w"
| "perform Help w = Return (cout helpText w)"
| "perform Cls w = Return (clearScreen w)"
| "perform List w = listNotes w"
| "perform (InvalidFilename arg) w =
     Return (cout ([apostrophe] @ arg @ [apostrophe] @ '' is not a valid filename.'' @ [nl, nl]) w)"
| "perform (Delete arg) w = Return (deleteNote arg w)"
| "perform (Create arg) w = createNote arg w"
| "perform (Append arg) w = loadNote arg True w"
| "perform (Overwrite arg) w = loadNote arg False w"
| "perform MissingArgument w =
     Return (cout (''ERROR: Missing argument (filename).'' @ [nl, nl]) w)"
| "perform (InvalidCommand cmd) w =
     Return (cout ([apostrophe] @ cmd @ [apostrophe] @ '' is not a valid command.'' @ [nl, nl]) w)"

text \<open>
  Every command leaves the lines still to be read no longer than it found them, so the
  loop of \<open>promptHandler\<close>, which takes one line for each command, ends on every
  finite list of lines.
\<close>

lemma input_cout [simp]: "input (cout s w) = input w"
  and dir_cout [simp]: "dir (cout s w) = dir w"
  and clock_cout [simp]: "clock (cout s w) = clock w"
  and ticks_cout [simp]: "ticks (cout s w) = ticks w"
  and out_cout [simp]: "out (cout s w) = out w @ [Print s]"
  by (simp_all add: cout_def)

lemma input_clearScreen [simp]: "input (clearScreen w) = input w"
  and dir_clearScreen [simp]: "dir (clearScreen w) = dir w"
  and clock_clearScreen [simp]: "clock (clearScreen w) = clock w"
  and ticks_clearScreen [simp]: "ticks (clearScreen w) = ticks w"
  by (simp_all add: clearScreen_def)

lemma input_saveNote [simp]: "input (saveNote n w) = input w"
  and clock_saveNote [simp]: "clock (saveNote n w) = clock w"
  by (simp_all add: saveNote_def split: option.splits)

lemma input_deleteNote [simp]: "input (deleteNote t w) = input w"
  and clock_deleteNote [simp]: "clock (deleteNote t w) = clock w"
  by (simp_all add: deleteNote_def split: option.splits)

lemma readLines_length: "readLines ls acc = Some (c, rest) \<Longrightarrow> length rest < length ls"
proof (induction ls arbitrary: acc)
  case Nil
  then show ?case by simp
next
  case (Cons l ls)
  show ?case
  proof (cases "l = ''!quit''")
    case True
    with Cons.prems show ?thesis by simp
  next
    case False
    with Cons.prems have "readLines ls (acc @ l @ [nl]) = Some (c, rest)" by simp
    then have "length rest < length ls" by (rule Cons.IH)
    then show ?thesis by simp
  qed
qed

lemma openNote_input: "openNote n w = Return w' \<Longrightarrow> length (input w') \<le> length (input w)"
  by (auto simp: openNote_def split: sum.splits option.splits dest!: readLines_length)

lemma listNotes_input: "listNotes w = Return w' \<Longrightarrow> input w' = input w"
proof -
  have "input (foldl (\<lambda>v entry. cout (stem (fst entry) @ [nl]) v) w es) = input w" for es
    by (induction es arbitrary: w) auto
  then show "listNotes w = Return w' \<Longrightarrow> input w' = input w"
    by (auto simp: listNotes_def split: sum.splits if_splits)
qed

lemma perform_input: "perform a w = Return w' \<Longrightarrow> length (input w') \<le> length (input w)"
  by (cases a) (auto simp: createNote_def loadNote_def getCurrentTime_def
      split: if_splits option.splits sum.splits dest!: openNote_input listNotes_input)

text \<open>
  \<open>promptHandler\<close>: the prompt is printed, a line is read, and the loop goes on
  until the line is \<open>exit\<close>.
\<close>

function promptHandler :: "world \<Rightarrow> world outcome" where
  "promptHandler w =
     (case input w of
        [] \<Rightarrow> AwaitInput
      | cmd # rest \<Rightarrow>
          (if dispatch cmd = Exit then Return ((cout ''$~ '' w)\<lparr>input := rest\<rparr>)
           else (case perform (dispatch cmd) ((cout ''$~ '' w)\<lparr>input := rest\<rparr>) of
                   Return w' \<Rightarrow> promptHandler w'
                 | Abort e \<Rightarrow> Abort e
                 | AwaitInput \<Rightarrow> AwaitInput)))"
  by pat_completeness auto
termination
proof (relation "measure (\<lambda>w. length (input w))")
  show "wf (measure (\<lambda>w. length (input w)))" by simp
next
  fix w :: world and cmd rest w'
  assume "input w = cmd # rest"
    and "perform (dispatch cmd) ((cout ''$~ '' w)\<lparr>input := rest\<rparr>) = Return w'"
  then show "(w', w) \<in> measure (\<lambda>w. length (input w))"
    by (auto dest!: perform_input)
qed

declare promptHandler.simps [simp del]

definition main :: "world \<Rightarrow> world outcome" where
  "main w =
     promptHandler
       ((cout (''Enter a command (new | app | ow | list | del | help | cls | exit)'' @ [nl, nl])
          (cout (''Welcome to CPPNotes!'' @ [nl]) w))
        \<lparr>dir := (if \<not> exists_dir (dir w) then Dir [] else dir w)\<rparr>)"

text \<open>The state a command returns with, when it returns.\<close>

definition returned :: "'a outcome \<Rightarrow> 'a option" where
  "returned r = (case r of Return x \<Rightarrow> Some x | Abort e \<Rightarrow> None | AwaitInput \<Rightarrow> None)"

subsection \<open>The format of a note file\<close>

text \<open>
  The format the properties below speak about. A file has the format of the note
  \<open>title\<close> when its first line starts with the title and the separator, the line
  after it is blank, and the file ends with a newline: the body behind the blank line
  is empty or a sequence of lines.
\<close>

definition note_format :: "string \<Rightarrow> string \<Rightarrow> bool" where
  "note_format title file =
     (prefix (title @ headSep) (fst (getline file))
      \<and> prefix [nl, nl] (dropWhile (\<lambda>c. c \<noteq> nl) file)
      \<and> last file = nl)"

section \<open>Properties\<close>

subsection \<open>Words, arguments and reserved characters\<close>

subsection \<open>Words, arguments and reserved characters\<close>

lemma str_find_char_None: "(str_find chars [c] = None) = (c \<notin> set chars)"
  by (induction chars) auto

lemma str_find_char_Some: "(\<exists>i. str_find chars [c] = Some i) = (c \<in> set chars)"
  using str_find_char_None [of chars c] by (cases "str_find chars [c]") auto

lemma containsCharsFrom_iff: "containsCharsFrom s chars = (\<exists>c\<in>set s. c \<in> set chars)"
  by (induction s) (simp_all add: str_find_char_None str_find_char_Some)

lemma validateInput_iff:
  "validateInput t = ((\<forall>c\<in>set t. c \<notin> set invalidChars) \<and> length t < 255)"
  by (auto simp: validateInput_def containsCharsFrom_iff)

lemma countWords_loop_Suc: "countWords_loop s (Suc k) = Suc (countWords_loop s k)"
proof (induction s k rule: countWords_loop.induct)
  case (1 stream count)
  show ?case
  proof (cases "dropWhile isspace stream = []")
    case True
    then show ?thesis by (simp add: countWords_loop.simps)
  next
    case False
    let ?r = "dropWhile (\<lambda>c. \<not> isspace c) (dropWhile isspace stream)"
    have "countWords_loop stream (Suc count) = countWords_loop ?r (Suc (count + 1))"
      by (subst countWords_loop.simps) (simp only: False if_False Suc_eq_plus1)
    also have "\<dots> = Suc (countWords_loop ?r (count + 1))"
      using False by (rule "1.IH")
    also have "countWords_loop ?r (count + 1) = countWords_loop stream count"
      by (subst (2) countWords_loop.simps) (simp only: False if_False)
    finally show ?thesis .
  qed
qed

lemma countWords_loop_space: "isspace c \<Longrightarrow> countWords_loop (c # s) k = countWords_loop s k"
  by (subst countWords_loop.simps, subst (2) countWords_loop.simps) simp

lemma countWords_loop_word:
  "\<not> isspace c \<Longrightarrow> countWords_loop (c # s) k = countWords_loop (dropWhile (\<lambda>c. \<not> isspace c) s) (Suc k)"
  by (subst countWords_loop.simps) simp

lemma countWords_space: "isspace c \<Longrightarrow> countWords (c # s) = countWords s"
  by (simp add: countWords_def countWords_loop_space)

lemma countWords_Nil: "countWords [] = 0"
  by (simp add: countWords_def countWords_loop.simps)

lemma countWords_word_space:
  "\<forall>c\<in>set v. \<not> isspace c \<Longrightarrow> v \<noteq> [] \<Longrightarrow> countWords (v @ CHR '' '' # s) = Suc (countWords s)"
proof -
  assume v: "\<forall>c\<in>set v. \<not> isspace c" and ne: "v \<noteq> []"
  then obtain c v' where vc: "v = c # v'" by (cases v) auto
  have sp: "isspace CHR '' ''" by (simp add: isspace_def)
  have "dropWhile (\<lambda>c. \<not> isspace c) (v' @ CHR '' '' # s) = CHR '' '' # s"
    using v vc sp by (simp add: dropWhile_append3)
  then show ?thesis
    using v vc sp
    by (simp add: countWords_def countWords_loop_word countWords_loop_Suc countWords_loop_space)
qed

lemma take_eq_append: "take n xs = p \<Longrightarrow> xs = p @ drop n xs"
  by (metis append_take_drop_id)

lemma extractArg_prefix:
  "CHR '' '' \<notin> set v \<Longrightarrow> extractArg (v @ CHR '' '' # s) = s"
proof -
  assume "CHR '' '' \<notin> set v"
  then have "str_find (v @ CHR '' '' # s) '' '' = Some (length v)"
    by (induction v) auto
  then show ?thesis by (simp add: extractArg_def)
qed

lemma countWords_commands:
  "countWords ''exit'' = 1" "countWords ''help'' = 1" "countWords ''cls'' = 1" "countWords ''list'' = 1"
  by (simp_all add: countWords_def countWords_loop.simps isspace_def)

lemma two_words_not_plain:
  "countWords cmd = 2 \<Longrightarrow> cmd \<noteq> ''exit'' \<and> cmd \<noteq> ''help'' \<and> cmd \<noteq> ''cls'' \<and> cmd \<noteq> ''list''"
  using countWords_commands by auto

lemma starts_with4: "take 4 cmd = [a, b, c, d] \<Longrightarrow> cmd = a # b # c # d # drop 4 cmd"
  using take_eq_append [of 4 cmd "[a, b, c, d]"] by simp

lemma starts_with3: "take 3 cmd = [a, b, c] \<Longrightarrow> cmd = a # b # c # drop 3 cmd"
  using take_eq_append [of 3 cmd "[a, b, c]"] by simp

lemma word_line:
  assumes "\<forall>c\<in>set v. \<not> isspace c" "v \<noteq> []"
  shows "extractArg (v @ CHR '' '' # r) = r \<and> countWords (v @ CHR '' '' # r) = Suc (countWords r)"
proof -
  have "CHR '' '' \<notin> set v" using assms(1) by (auto simp: isspace_def)
  then show ?thesis
    using extractArg_prefix [of v r] countWords_word_space [OF assms, of r] by simp
qed

lemma command_line:
  assumes "take 4 cmd = ''new '' \<or> take 4 cmd = ''app '' \<or> take 4 cmd = ''del '' \<or> take 3 cmd = ''ow ''"
  shows "countWords cmd = Suc (countWords (extractArg cmd))"
  using assms
proof (elim disjE)
  assume "take 4 cmd = ''new ''"
  then have "cmd = ''new'' @ CHR '' '' # drop 4 cmd" using starts_with4 by fastforce
  then show ?thesis using word_line [of "''new''" "drop 4 cmd"] by (simp add: isspace_def)
next
  assume "take 4 cmd = ''app ''"
  then have "cmd = ''app'' @ CHR '' '' # drop 4 cmd" using starts_with4 by fastforce
  then show ?thesis using word_line [of "''app''" "drop 4 cmd"] by (simp add: isspace_def)
next
  assume "take 4 cmd = ''del ''"
  then have "cmd = ''del'' @ CHR '' '' # drop 4 cmd" using starts_with4 by fastforce
  then show ?thesis using word_line [of "''del''" "drop 4 cmd"] by (simp add: isspace_def)
next
  assume "take 3 cmd = ''ow ''"
  then have "cmd = ''ow'' @ CHR '' '' # drop 3 cmd" using starts_with3 by fastforce
  then show ?thesis using word_line [of "''ow''" "drop 3 cmd"] by (simp add: isspace_def)
qed

lemma starts_missing:
  assumes "take 4 cmd = ''new '' \<or> take 4 cmd = ''app '' \<or> take 4 cmd = ''del '' \<or> take 3 cmd = ''ow ''"
    and "countWords cmd \<noteq> 2"
  shows "dispatch cmd = MissingArgument"
  using assms(1)
proof (elim disjE)
  assume "take 4 cmd = ''new ''"
  then obtain r where "cmd = ''new '' @ r" using starts_with4 by fastforce
  then show ?thesis using assms(2) by (simp add: dispatch_def)
next
  assume "take 4 cmd = ''app ''"
  then obtain r where "cmd = ''app '' @ r" using starts_with4 by fastforce
  then show ?thesis using assms(2) by (simp add: dispatch_def)
next
  assume "take 4 cmd = ''del ''"
  then obtain r where "cmd = ''del '' @ r" using starts_with4 by fastforce
  then show ?thesis using assms(2) by (simp add: dispatch_def)
next
  assume "take 3 cmd = ''ow ''"
  then obtain r where "cmd = ''ow '' @ r" using starts_with3 by fastforce
  then show ?thesis using assms(2) by (simp add: dispatch_def)
qed

lemma dispatch_Create:
  "dispatch cmd = Create t \<Longrightarrow>
     take 4 cmd = ''new '' \<and> countWords cmd = 2 \<and> validateInput t \<and> t = extractArg cmd"
  unfolding dispatch_def by (simp split: if_splits)

lemma dispatch_Append:
  "dispatch cmd = Append t \<Longrightarrow>
     take 4 cmd = ''app '' \<and> countWords cmd = 2 \<and> validateInput t \<and> t = extractArg cmd"
  unfolding dispatch_def by (simp split: if_splits)

lemma dispatch_Delete:
  "dispatch cmd = Delete t \<Longrightarrow>
     take 4 cmd = ''del '' \<and> countWords cmd = 2 \<and> validateInput t \<and> t = extractArg cmd"
  unfolding dispatch_def by (simp split: if_splits)

lemma dispatch_Overwrite:
  "dispatch cmd = Overwrite t \<Longrightarrow>
     take 3 cmd = ''ow '' \<and> countWords cmd = 2 \<and> validateInput t \<and> t = extractArg cmd"
  unfolding dispatch_def by (simp split: if_splits)

lemma dispatched_title:
  assumes "dispatch cmd = Create t \<or> dispatch cmd = Append t \<or> dispatch cmd = Overwrite t
           \<or> dispatch cmd = Delete t"
  shows "t = extractArg cmd \<and> countWords cmd = 2 \<and> validateInput t \<and> countWords t = 1"
proof -
  from assms have t: "t = extractArg cmd" and two: "countWords cmd = 2" and v: "validateInput t"
    and st: "take 4 cmd = ''new '' \<or> take 4 cmd = ''app '' \<or> take 4 cmd = ''del ''
      \<or> take 3 cmd = ''ow ''"
    using dispatch_Create [of cmd t] dispatch_Append [of cmd t] dispatch_Delete [of cmd t]
      dispatch_Overwrite [of cmd t]
    by blast+
  from command_line [OF st] t two v show ?thesis by simp
qed

subsection \<open>Searching and reading lines\<close>

lemma str_find_headSep:
  "CHR ''|'' \<notin> set title \<Longrightarrow> str_find (title @ headSep @ ts) headSep = Some (length title)"
proof (induction title)
  case Nil
  show ?case by (cases ts) (simp_all add: headSep_def)
next
  case (Cons c title)
  then have "\<not> prefix headSep ((c # title) @ headSep @ ts)"
    by (cases title) (auto simp: headSep_def)
  with Cons show ?case by simp
qed

lemma str_find_blank_line:
  "nl \<notin> set h \<Longrightarrow> str_find (h @ nl # nl # b) [nl, nl] = Some (length h)"
  by (induction h) auto

lemma str_find_bound: "str_find s pat = Some i \<Longrightarrow> i + length pat \<le> length s"
proof (induction s arbitrary: i)
  case Nil
  then show ?case by (simp split: if_splits)
next
  case (Cons c s)
  show ?case
  proof (cases "prefix pat (c # s)")
    case True
    then have "length pat \<le> length (c # s)" by (rule prefix_length_le)
    with True Cons.prems show ?thesis by simp
  next
    case False
    with Cons.prems obtain j where "str_find s pat = Some j" "i = Suc j" by auto
    with Cons.IH [of j] show ?thesis by simp
  qed
qed

lemma getline_line: "nl \<notin> set h \<Longrightarrow> getline (h @ nl # r) = (h, r)"
  by (induction h) (auto simp: getline_def)

lemma getline_no_newline: "nl \<notin> set s \<Longrightarrow> getline s = (s, [])"
  by (induction s) (auto simp: getline_def)

lemma getline_split:
  "nl \<in> set s \<Longrightarrow> s = fst (getline s) @ nl # snd (getline s)"
proof -
  assume a: "nl \<in> set s"
  then have "dropWhile (\<lambda>c. c \<noteq> nl) s \<noteq> []" by simp
  moreover from this have "hd (dropWhile (\<lambda>c. c \<noteq> nl) s) = nl"
    using hd_dropWhile [of "\<lambda>c. c \<noteq> nl" s] by simp
  ultimately have "dropWhile (\<lambda>c. c \<noteq> nl) s = nl # drop 1 (dropWhile (\<lambda>c. c \<noteq> nl) s)"
    by (cases "dropWhile (\<lambda>c. c \<noteq> nl) s") auto
  then show ?thesis
    using takeWhile_dropWhile_id [of "\<lambda>c. c \<noteq> nl" s] by (simp add: getline_def)
qed

lemma nl_notin_fst_getline: "nl \<notin> set (fst (getline s))"
  by (auto simp: getline_def dest: set_takeWhileD)

lemma dropWhile_line: "nl \<notin> set h \<Longrightarrow> dropWhile (\<lambda>c. c \<noteq> nl) (h @ nl # r) = nl # r"
  by (induction h) auto

lemma read_rest_eq:
  "read_rest s acc = acc @ s @ (if s = [] \<or> last s = nl then [] else [nl])"
proof (induction s acc rule: read_rest.induct)
  case (1 stream loadedContent)
  show ?case
  proof (cases "stream = []")
    case True
    then show ?thesis by (simp add: read_rest.simps)
  next
    case False
    let ?l = "fst (getline stream)" and ?r = "snd (getline stream)"
    have step: "read_rest stream loadedContent = read_rest ?r (loadedContent @ ?l @ [nl])"
      by (subst read_rest.simps) (simp only: False if_False)
    have ih: "read_rest ?r (loadedContent @ ?l @ [nl])
        = (loadedContent @ ?l @ [nl]) @ ?r @ (if ?r = [] \<or> last ?r = nl then [] else [nl])"
      using False by (rule "1.IH")
    show ?thesis
    proof (cases "nl \<in> set stream")
      case True
      then have s: "stream = ?l @ nl # ?r" by (rule getline_split)
      have "last stream = (if ?r = [] then nl else last ?r)"
        by (subst s) simp
      moreover have "loadedContent @ stream = loadedContent @ ?l @ [nl] @ ?r"
        by (subst s) simp
      ultimately show ?thesis using step ih False by auto
    next
      case False
      then have "getline stream = (stream, [])" by (rule getline_no_newline)
      moreover have "last stream \<noteq> nl" using False \<open>stream \<noteq> []\<close> last_in_set by metis
      ultimately show ?thesis using step ih \<open>stream \<noteq> []\<close> by simp
    qed
  qed
qed

lemma lines_end: "concat (map (\<lambda>l. l @ [nl]) ls) = [] \<or> last (concat (map (\<lambda>l. l @ [nl]) ls)) = nl"
  by (induction ls rule: rev_induct) auto

lemma drop_ends: "c = [] \<or> last c = nl \<Longrightarrow> drop k c = [] \<or> last (drop k c) = nl"
  by (cases "k < length c") auto


lemma extractArg_subset: "set (extractArg cmd) \<subseteq> set cmd"
  by (auto simp: extractArg_def split: option.splits dest: in_set_dropD)

lemma nl_notin_headSep: "nl \<notin> set headSep"
  by (simp add: headSep_def)

lemma length_headSep: "length headSep = 3"
  by (simp add: headSep_def)

subsection \<open>Files of the directory\<close>

lemma read_file_update:
  "read_file (Dir (AList.update p c fs)) q = (if q = p then Some c else read_file (Dir fs) q)"
  by (simp add: read_file_def update_conv')

lemma read_file_delete:
  "read_file (Dir (AList.delete p fs)) q = (if q = p then None else read_file (Dir fs) q)"
  by (simp add: read_file_def delete_conv')

lemma read_file_Some_Dir: "read_file d p = Some c \<Longrightarrow> \<exists>fs. d = Dir fs"
  by (cases d) (simp_all add: read_file_def)

subsection \<open>Loading and editing a note\<close>

lemma loadedNote_append:
  assumes "CHR ''|'' \<notin> set title" "nl \<notin> set title" "nl \<notin> set ts" "body = [] \<or> last body = nl"
  shows "loadedNote title True (title @ headSep @ ts @ [nl, nl] @ body)
         = Inr \<lparr>name = title, timestamp = ts, content = title @ headSep @ ts @ [nl, nl] @ body\<rparr>"
proof -
  let ?h = "title @ headSep @ ts"
  have "nl \<notin> set ?h" using assms(2,3) nl_notin_headSep by simp
  then have "getline (?h @ nl # (nl # body)) = (?h, nl # body)" by (rule getline_line)
  then have g: "getline (title @ headSep @ ts @ [nl, nl] @ body) = (?h, nl # body)" by simp
  have f: "str_find ?h headSep = Some (length title)"
    using assms(1) by (rule str_find_headSep)
  have r: "read_rest (nl # body) [] = nl # body"
    using assms(4) by (auto simp: read_rest_eq)
  show ?thesis
    unfolding loadedNote_def g by (simp add: f r substr_def)
qed


lemma loadedNote_overwrite_any:
  assumes "CHR ''|'' \<notin> set nm" "fst (getline file) = nm @ headSep @ ts"
  shows "loadedNote title False file
         = Inr \<lparr>name = title, timestamp = ts, content = nm @ headSep @ ts @ [nl, nl]\<rparr>"
proof -
  have f: "str_find (nm @ headSep @ ts) headSep = Some (length nm)"
    using assms(1) by (rule str_find_headSep)
  obtain h r where g: "getline file = (h, r)" by (cases "getline file")
  with assms(2) have "h = nm @ headSep @ ts" by simp
  then show ?thesis
    unfolding loadedNote_def g by (simp add: f substr_def)
qed

text \<open>
  A first line without the separator that is shorter than two characters makes
  \<open>substr\<close> throw: loading an empty file ends the process.
\<close>

lemma loadedNote_empty_file: "loadedNote title appendMode [] = Inl out_of_range"
  by (simp add: loadedNote_def getline_def headSep_def substr_def)

lemma loadedNote_fields:
  assumes "loadedNote title appendMode file = Inr n"
  shows "name n = title \<and> nl \<notin> set (timestamp n) \<and> last (content n) = nl"
proof -
  obtain h r where g: "getline file = (h, r)" by (cases "getline file")
  then have h: "nl \<notin> set h" using nl_notin_fst_getline [of "file"] by simp
  let ?k = "case str_find h headSep of Some sep \<Rightarrow> sep + length headSep | None \<Rightarrow> 2"
  from assms g have n: "n = \<lparr>name = title, timestamp = drop ?k h,
      content = h @ [nl] @ (if appendMode then read_rest r [] else [nl])\<rparr>"
    by (auto simp: loadedNote_def substr_def split: if_splits)
  have "nl \<notin> set (drop ?k h)" using h by (auto dest: in_set_dropD)
  moreover have "last (h @ [nl] @ (if appendMode then read_rest r [] else [nl])) = nl"
    by (simp add: read_rest_eq)
  ultimately show ?thesis using n by simp
qed

lemma readLines_sentinel:
  "''!quit'' \<notin> set X \<Longrightarrow>
     readLines (X @ ''!quit'' # rest) acc = Some (acc @ concat (map (\<lambda>l. l @ [nl]) X), rest)"
  by (induction X arbitrary: acc) auto

lemma readLines_no_sentinel: "''!quit'' \<notin> set X \<Longrightarrow> readLines X acc = None"
  by (induction X arbitrary: acc) auto

lemma readLines_typed:
  "readLines ls acc = Some (c, rest) \<Longrightarrow> acc = [] \<or> last acc = nl \<Longrightarrow>
     (c = [] \<or> last c = nl) \<and> set rest \<subseteq> set ls"
proof (induction ls arbitrary: acc)
  case Nil
  then show ?case by simp
next
  case (Cons l ls)
  show ?case
  proof (cases "l = ''!quit''")
    case True
    with Cons.prems show ?thesis by auto
  next
    case False
    with Cons.prems have "readLines ls (acc @ l @ [nl]) = Some (c, rest)" by simp
    then have "(c = [] \<or> last c = nl) \<and> set rest \<subseteq> set ls"
      by (rule Cons.IH) simp
    then show ?thesis by auto
  qed
qed

lemma openNote_blank_line:
  assumes "nl \<notin> set h" "content n = h @ [nl, nl] @ body"
    and "readLines (input w) [] = Some (typed, rest)" "dir w = Dir fs"
  shows "\<exists>w'. openNote n w = Return w'
           \<and> dir w' = Dir (AList.update (name n @ noteExt)
                 (name n @ headSep @ timestamp n @ [nl, nl] @ body @ typed) fs)
           \<and> input w' = rest \<and> clock w' = clock w \<and> ticks w' = ticks w"
proof -
  have "str_find (h @ nl # nl # body) [nl, nl] = Some (length h)"
    using assms(1) by (rule str_find_blank_line)
  then have "str_find (content n) [nl, nl] = Some (length h)"
    using assms(2) by simp
  then show ?thesis
    using assms(2,3,4)
    by (simp add: openNote_def substr_def saveNote_def write_file_def cout_def clearScreen_def)
qed

lemma openNote_written:
  assumes "openNote n w = Return w'"
  shows "clock w' = clock w \<and> ticks w' = ticks w \<and> set (input w') \<subseteq> set (input w)
         \<and> (dir w' = dir w
             \<or> (\<exists>fs k typed. dir w = Dir fs
                   \<and> dir w' = Dir (AList.update (name n @ noteExt)
                        (name n @ headSep @ timestamp n @ [nl, nl] @ drop k (content n) @ typed) fs)
                   \<and> (typed = [] \<or> last typed = nl)))"
proof -
  let ?k = "case str_find (content n) [nl, nl] of Some i \<Rightarrow> i + 2 | None \<Rightarrow> 1"
  from assms obtain typed rest where
    sub: "substr (content n) ?k = Inr (drop ?k (content n))"
    and rl: "readLines (input w) [] = Some (typed, rest)"
    by (auto simp: openNote_def substr_def split: sum.splits option.splits if_splits)
  from rl have ty: "(typed = [] \<or> last typed = nl) \<and> set rest \<subseteq> set (input w)"
    by (rule readLines_typed) simp
  show ?thesis
  proof (cases "dir w")
    case Missing
    with assms sub rl ty show ?thesis
      by (auto simp: openNote_def saveNote_def write_file_def)
  next
    case (Dir fs)
    with assms sub rl have frame: "clock w' = clock w" "ticks w' = ticks w" "input w' = rest"
      and "dir w' = Dir (AList.update (name n @ noteExt)
            (name n @ headSep @ timestamp n @ [nl, nl] @ drop ?k (content n) @ typed) fs)"
      by (auto simp: openNote_def saveNote_def write_file_def)
    with Dir ty have "\<exists>fs k typed. dir w = Dir fs
                   \<and> dir w' = Dir (AList.update (name n @ noteExt)
                        (name n @ headSep @ timestamp n @ [nl, nl] @ drop k (content n) @ typed) fs)
                   \<and> (typed = [] \<or> last typed = nl)"
      by blast
    with frame ty show ?thesis by simp
  qed
qed


lemma dispatch_ow:
  assumes "countWords title = 1" "validateInput title"
  shows "dispatch (''ow '' @ title) = Overwrite title"
proof -
  have "extractArg (''ow'' @ CHR '' '' # title) = title
      \<and> countWords (''ow'' @ CHR '' '' # title) = Suc (countWords title)"
    by (rule word_line) (simp_all add: isspace_def)
  then show ?thesis using assms by (simp add: dispatch_def)
qed

subsection \<open>Written files have the format\<close>

lemma note_format_written:
  assumes "nl \<notin> set title" "nl \<notin> set ts" "body = [] \<or> last body = nl"
  shows "note_format title (title @ headSep @ ts @ [nl, nl] @ body)"
proof -
  let ?h = "title @ headSep @ ts"
  have h: "nl \<notin> set ?h" using assms(1,2) nl_notin_headSep by simp
  have "getline (?h @ nl # (nl # body)) = (?h, nl # body)"
    using h by (rule getline_line)
  moreover have "dropWhile (\<lambda>c. c \<noteq> nl) (?h @ nl # (nl # body)) = nl # (nl # body)"
    using h by (rule dropWhile_line)
  ultimately show ?thesis
    using assms(3) by (auto simp: note_format_def)
qed

lemma note_format_iff:
  "note_format title file \<longleftrightarrow>
     (\<exists>ts body. file = title @ headSep @ ts @ [nl, nl] @ body
        \<and> nl \<notin> set title \<and> nl \<notin> set ts \<and> (body = [] \<or> last body = nl))"
proof
  assume nf: "note_format title file"
  then obtain ts where h: "fst (getline file) = title @ headSep @ ts"
    by (auto simp: note_format_def prefix_def)
  from nf obtain body where d: "dropWhile (\<lambda>c. c \<noteq> nl) file = [nl, nl] @ body"
    by (auto simp: note_format_def prefix_def)
  have "file = takeWhile (\<lambda>c. c \<noteq> nl) file @ dropWhile (\<lambda>c. c \<noteq> nl) file" by simp
  with h d have f: "file = title @ headSep @ ts @ [nl, nl] @ body"
    by (simp add: getline_def)
  have "nl \<notin> set (title @ headSep @ ts)"
    using nl_notin_fst_getline [of "file"] h by simp
  moreover have "body = [] \<or> last body = nl"
    using nf f by (auto simp: note_format_def split: if_splits)
  ultimately show "\<exists>ts body. file = title @ headSep @ ts @ [nl, nl] @ body
        \<and> nl \<notin> set title \<and> nl \<notin> set ts \<and> (body = [] \<or> last body = nl)"
    using f by auto
next
  assume "\<exists>ts body. file = title @ headSep @ ts @ [nl, nl] @ body
        \<and> nl \<notin> set title \<and> nl \<notin> set ts \<and> (body = [] \<or> last body = nl)"
  then show "note_format title file"
    using note_format_written by blast
qed

lemma openNote_format:
  assumes "openNote n w = Return w'" "nl \<notin> set (name n)" "nl \<notin> set (timestamp n)"
    and "content n = [] \<or> last (content n) = nl"
    and "read_file (dir w') (title @ noteExt) = Some file"
  shows "read_file (dir w) (title @ noteExt) = Some file \<or> note_format title file"
proof -
  from openNote_written [OF assms(1)] consider "dir w' = dir w"
    | fs k typed where "dir w = Dir fs"
        "dir w' = Dir (AList.update (name n @ noteExt)
           (name n @ headSep @ timestamp n @ [nl, nl] @ drop k (content n) @ typed) fs)"
        "typed = [] \<or> last typed = nl"
    by blast
  then show ?thesis
  proof cases
    case 1
    with assms(5) show ?thesis by simp
  next
    case 2
    have "drop k (content n) = [] \<or> last (drop k (content n)) = nl"
      using assms(4) by (rule drop_ends)
    with 2(3) have "drop k (content n) @ typed = [] \<or> last (drop k (content n) @ typed) = nl"
      by (auto simp: last_append)
    with assms(2,3)
    have nf: "note_format (name n) (name n @ headSep @ timestamp n @ [nl, nl] @ drop k (content n) @ typed)"
      by (rule note_format_written)
    show ?thesis
    proof (cases "title = name n")
      case True
      with assms(5) 2(2) nf show ?thesis by (simp add: read_file_update)
    next
      case False
      with assms(5) 2(1,2) show ?thesis by (simp add: read_file_update)
    qed
  qed
qed

lemma deleteNote_format:
  "read_file (dir (deleteNote t w)) p = Some file \<Longrightarrow> read_file (dir w) p = Some file"
  by (cases "dir w")
    (auto simp: deleteNote_def remove_file_def read_file_delete split: if_splits option.splits)

lemma foldl_cout_frame:
  "dir (foldl (\<lambda>v entry. cout (f entry) v) w es) = dir w
   \<and> clock (foldl (\<lambda>v entry. cout (f entry) v) w es) = clock w
   \<and> input (foldl (\<lambda>v entry. cout (f entry) v) w es) = input w"
  by (induction es arbitrary: w) auto

lemma listNotes_frame:
  "listNotes w = Return w' \<Longrightarrow> dir w' = dir w \<and> clock w' = clock w \<and> input w' = input w"
  by (auto simp: listNotes_def foldl_cout_frame split: sum.splits if_splits)

lemma createNote_format:
  assumes "createNote t w = Return w'" "nl \<notin> set t" "nl \<notin> set (clock w (ticks w))"
    and "read_file (dir w') (title @ noteExt) = Some file"
  shows "read_file (dir w) (title @ noteExt) = Some file \<or> note_format title file"
proof (cases "exists_file (dir w) (t @ noteExt)")
  case True
  with assms(1,4) show ?thesis by (auto simp: createNote_def)
next
  case False
  let ?n = "\<lparr>name = t, timestamp = clock w (ticks w),
             content = t @ headSep @ clock w (ticks w) @ [nl, nl]\<rparr>"
  from False assms(1) have "openNote ?n (w\<lparr>ticks := Suc (ticks w)\<rparr>) = Return w'"
    by (simp add: createNote_def getCurrentTime_def)
  from openNote_format [OF this _ _ _ assms(4)] assms(2,3) show ?thesis by simp
qed

lemma loadNote_format:
  assumes "loadNote t appendMode w = Return w'" "nl \<notin> set t"
    and "read_file (dir w') (title @ noteExt) = Some file"
  shows "read_file (dir w) (title @ noteExt) = Some file \<or> note_format title file"
proof (cases "read_file (dir w) (t @ noteExt)")
  case None
  with assms(1,3) show ?thesis by (auto simp: loadNote_def)
next
  case (Some f)
  with assms(1) obtain n where n: "loadedNote t appendMode f = Inr n"
    and o: "openNote n (clearScreen w) = Return w'"
    by (auto simp: loadNote_def split: sum.splits)
  from loadedNote_fields [OF n] assms(2)
  have "nl \<notin> set (name n)" "nl \<notin> set (timestamp n)" "content n = [] \<or> last (content n) = nl"
    by simp_all
  from openNote_format [OF o this assms(3)] show ?thesis by simp
qed

lemma perform_format:
  assumes "perform (dispatch cmd) w = Return w'" "nl \<notin> set cmd" "nl \<notin> set (clock w (ticks w))"
    and "read_file (dir w') (title @ noteExt) = Some file"
  shows "read_file (dir w) (title @ noteExt) = Some file \<or> note_format title file"
proof -
  have arg: "nl \<notin> set (extractArg cmd)" using assms(2) extractArg_subset by blast
  show ?thesis
  proof (cases "dispatch cmd")
    case List
    with assms(1,4) show ?thesis using listNotes_frame [of w w'] by simp
  next
    case (Delete t)
    with assms(1,4) show ?thesis using deleteNote_format [of t w] by auto
  next
    case (Create t)
    with dispatch_Create [of cmd t] arg have "nl \<notin> set t" by simp
    with Create assms(1,3,4) show ?thesis using createNote_format [of t w w' title "file"] by simp
  next
    case (Append t)
    with dispatch_Append [of cmd t] arg have "nl \<notin> set t" by simp
    with Append assms(1,4) show ?thesis using loadNote_format [of t True w w' title "file"] by simp
  next
    case (Overwrite t)
    with dispatch_Overwrite [of cmd t] arg have "nl \<notin> set t" by simp
    with Overwrite assms(1,4) show ?thesis using loadNote_format [of t False w w' title "file"] by simp
  qed (use assms(1,4) in auto)
qed

lemma perform_frame:
  assumes "perform a w = Return w'"
  shows "clock w' = clock w \<and> set (input w') \<subseteq> set (input w)"
proof (cases a)
  case List
  with assms show ?thesis using listNotes_frame [of w w'] by simp
next
  case (Create t)
  with assms show ?thesis
    using openNote_written [of _ "w\<lparr>ticks := Suc (ticks w)\<rparr>" w']
    by (auto simp: createNote_def getCurrentTime_def split: if_splits)
next
  case (Append t)
  with assms show ?thesis
    using openNote_written [of _ "clearScreen w" w']
    by (auto simp: loadNote_def split: option.splits sum.splits)
next
  case (Overwrite t)
  with assms show ?thesis
    using openNote_written [of _ "clearScreen w" w']
    by (auto simp: loadNote_def split: option.splits sum.splits)
qed (use assms in auto)

lemma promptHandler_format:
  assumes "promptHandler w = Return w'"
    and "\<forall>l\<in>set (input w). nl \<notin> set l" "\<forall>k. nl \<notin> set (clock w k)"
    and "\<forall>title file. read_file (dir w) (title @ noteExt) = Some file \<longrightarrow> note_format title file"
  shows "\<forall>title file. read_file (dir w') (title @ noteExt) = Some file \<longrightarrow> note_format title file"
  using assms
proof (induction w rule: promptHandler.induct)
  case (1 w)
  from "1.prems"(1) obtain cmd rest where inp: "input w = cmd # rest"
    by (subst (asm) promptHandler.simps) (auto split: list.splits)
  let ?w1 = "(cout ''$~ '' w)\<lparr>input := rest\<rparr>"
  show ?case
  proof (cases "dispatch cmd = Exit")
    case True
    with "1.prems"(1) inp have "w' = ?w1"
      by (subst (asm) promptHandler.simps) simp
    with "1.prems"(4) show ?thesis by simp
  next
    case False
    with "1.prems"(1) inp obtain w2 where p: "perform (dispatch cmd) ?w1 = Return w2"
      and r: "promptHandler w2 = Return w'"
      by (subst (asm) promptHandler.simps) (auto split: outcome.splits)
    have cmd: "nl \<notin> set cmd" using "1.prems"(2) inp by simp
    from perform_frame [OF p] have fr: "clock w2 = clock w" "set (input w2) \<subseteq> set rest"
      by simp_all
    have "\<forall>title file. read_file (dir w2) (title @ noteExt) = Some file \<longrightarrow> note_format title file"
    proof (intro allI impI)
      fix title f
      assume "read_file (dir w2) (title @ noteExt) = Some f"
      from perform_format [OF p cmd _ this] "1.prems"(3,4)
      show "note_format title f" by auto
    qed
    moreover have "\<forall>l\<in>set (input w2). nl \<notin> set l"
      using fr(2) "1.prems"(2) inp by auto
    moreover have "\<forall>k. nl \<notin> set (clock w2 k)"
      using fr(1) "1.prems"(3) by simp
    ultimately show ?thesis
      using "1.IH" [OF inp False p r] by blast
  qed
qed

lemma cout_neq: "a \<noteq> b \<Longrightarrow> cout a w \<noteq> cout b w'"
proof
  assume "a \<noteq> b" "cout a w = cout b w'"
  then have "last (out (cout a w)) = last (out (cout b w'))" by simp
  with \<open>a \<noteq> b\<close> show False by simp
qed

subsection \<open>Unfolding on concrete inputs\<close>

lemmas eval_defs =
  countWords_def countWords_loop.simps isspace_def dispatch_def extractArg_def
  validateInput_def invalidChars_def returned_def createNote_def exists_file_def read_file_def
  getCurrentTime_def openNote_def substr_def saveNote_def write_file_def noteExt_def headSep_def
  cout_def clearScreen_def loadNote_def loadedNote_def getline_def read_rest.simps
  listNotes_def directory_iterator_def exists_dir_def

subsection \<open>The editor session\<close>

text \<open>
  Claim C9. The editor session \<open>openNote\<close> starts from an empty buffer, reads the
  typed lines one at a time and appends each, followed by a newline, to the buffer. It
  stops at the first line that is exactly \<open>!quit\<close>: that line is not stored, the
  lines behind it are left to be read, and the note saved holds the header, the
  existing user content and the buffer. Every line that differs from the sentinel is
  stored as typed, and while no sentinel has been typed the session does not end.
\<close>

theorem openNote_until_sentinel:
  assumes "''!quit'' \<notin> set X"
    and "substr (content n)
           (case str_find (content n) [nl, nl] of Some i \<Rightarrow> i + 2 | None \<Rightarrow> 1)
         = Inr userContent"
  shows "(input w = X \<longrightarrow> openNote n w = AwaitInput)
       \<and> (input w = X @ ''!quit'' # rest \<longrightarrow>
            (\<exists>w'. openNote n w = Return w'
               \<and> w' = saveNote
                     (n\<lparr>content := name n @ headSep @ timestamp n @ [nl, nl] @ userContent
                                      @ concat (map (\<lambda>l. l @ [nl]) X)\<rparr>)
                     ((cout userContent
                        (cout (''Type !quit on a new line to exit.'' @ [nl, nl])
                          (cout (name n @ headSep @ timestamp n @ [nl])
                            (clearScreen w))))\<lparr>input := rest\<rparr>)
               \<and> input w' = rest
               \<and> (exists_dir (dir w) \<longrightarrow>
                    read_file (dir w') (name n @ noteExt)
                      = Some (name n @ headSep @ timestamp n @ [nl, nl] @ userContent
                              @ concat (map (\<lambda>l. l @ [nl]) X)))))"
proof -
  let ?m = "n\<lparr>content := name n @ headSep @ timestamp n @ [nl, nl] @ userContent
                              @ concat (map (\<lambda>l. l @ [nl]) X)\<rparr>"
  let ?v = "(cout userContent
              (cout (''Type !quit on a new line to exit.'' @ [nl, nl])
                (cout (name n @ headSep @ timestamp n @ [nl])
                  (clearScreen w))))\<lparr>input := rest\<rparr>"
  have a: "openNote n w = AwaitInput" if "input w = X"
    using that assms(2) readLines_no_sentinel [OF assms(1), of "[]"]
    by (simp add: openNote_def)
  have b: "openNote n w = Return (saveNote ?m ?v)" if "input w = X @ ''!quit'' # rest"
    using that assms(2) readLines_sentinel [OF assms(1), where rest=rest and acc="[]"]
    by (simp add: openNote_def)
  have i: "input (saveNote ?m ?v) = rest" by simp
  have c: "read_file (dir (saveNote ?m ?v)) (name n @ noteExt)
      = Some (name n @ headSep @ timestamp n @ [nl, nl] @ userContent
              @ concat (map (\<lambda>l. l @ [nl]) X))"
    if "exists_dir (dir w)"
    using that
    by (cases "dir w") (simp_all add: exists_dir_def saveNote_def write_file_def read_file_update)
  from a b i c show ?thesis by blast
qed

theorem openNote_until_sentinel_witness:
  "''!quit'' \<notin> set [''!quit '', ''a'']
   \<and> substr (''n | t'' @ [nl, nl] @ ''old'' @ [nl])
         (case str_find (''n | t'' @ [nl, nl] @ ''old'' @ [nl]) [nl, nl] of
            Some i \<Rightarrow> i + 2 | None \<Rightarrow> 1)
       = Inr (''old'' @ [nl])
   \<and> openNote \<lparr>name = ''n'', timestamp = ''t'', content = ''n | t'' @ [nl, nl] @ ''old'' @ [nl]\<rparr>
         \<lparr>dir = Dir [], clock = (\<lambda>k. ''u''), ticks = 0, input = [''!quit '', ''a''], out = []\<rparr>
       = AwaitInput
   \<and> map_option (\<lambda>w'. (read_file (dir w') ''n.cppn'', input w'))
        (returned (openNote
           \<lparr>name = ''n'', timestamp = ''t'', content = ''n | t'' @ [nl, nl] @ ''old'' @ [nl]\<rparr>
           \<lparr>dir = Dir [], clock = (\<lambda>k. ''u''), ticks = 0,
            input = [''!quit '', ''a'', ''!quit'', ''b''], out = []\<rparr>))
       = Some (Some (''n | t'' @ [nl, nl] @ ''old'' @ [nl] @ ''!quit '' @ [nl] @ ''a'' @ [nl]), [''b''])"
  using openNote_until_sentinel [of "[''!quit '', ''a'']"
      "\<lparr>name = ''n'', timestamp = ''t'', content = ''n | t'' @ [nl, nl] @ ''old'' @ [nl]\<rparr>"
      "''old'' @ [nl]"
      "\<lparr>dir = Dir [], clock = (\<lambda>k. ''u''), ticks = 0, input = [''!quit '', ''a''], out = []\<rparr>"
      "[''b'']"]
    openNote_until_sentinel [of "[''!quit '', ''a'']"
      "\<lparr>name = ''n'', timestamp = ''t'', content = ''n | t'' @ [nl, nl] @ ''old'' @ [nl]\<rparr>"
      "''old'' @ [nl]"
      "\<lparr>dir = Dir [], clock = (\<lambda>k. ''u''), ticks = 0,
        input = [''!quit '', ''a'', ''!quit'', ''b''], out = []\<rparr>"
      "[''b'']"]
  by (simp add: eval_defs)

subsection \<open>Creating a note that exists\<close>

text \<open>
  Claim C5. When a file for the title exists, \<open>createNote\<close> prints the
  "already exists" error and returns with the directory as it was: no file is changed
  and none is created. Nothing is read from the input.
\<close>

theorem createNote_already_exists:
  assumes "exists_file (dir w) (title @ noteExt)"
  shows "\<exists>w'. createNote title w = Return w'
           \<and> dir w' = dir w
           \<and> input w' = input w
           \<and> out w' = out w @ [Print (''ERROR: '' @ [apostrophe] @ title @ [apostrophe]
                                        @ '' already exists.'' @ [nl, nl])]"
  using assms by (simp add: createNote_def)

theorem createNote_already_exists_witness:
  "exists_file (dir \<lparr>dir = Dir [(''a.cppn'', ''a | t'' @ [nl, nl])], clock = (\<lambda>k. ''t''),
                      ticks = 0, input = [''x'', ''!quit''], out = []\<rparr>) (''a'' @ noteExt)
   \<and> createNote ''a'' \<lparr>dir = Dir [(''a.cppn'', ''a | t'' @ [nl, nl])], clock = (\<lambda>k. ''t''),
                        ticks = 0, input = [''x'', ''!quit''], out = []\<rparr>
     = Return \<lparr>dir = Dir [(''a.cppn'', ''a | t'' @ [nl, nl])], clock = (\<lambda>k. ''t''),
               ticks = 0, input = [''x'', ''!quit''],
               out = [Print (''ERROR: '' @ [apostrophe] @ ''a'' @ [apostrophe]
                             @ '' already exists.'' @ [nl, nl])]\<rparr>"
  using createNote_already_exists
    [of "\<lparr>dir = Dir [(''a.cppn'', ''a | t'' @ [nl, nl])], clock = (\<lambda>k. ''t''),
         ticks = 0, input = [''x'', ''!quit''], out = []\<rparr>" "''a''"]
  by (simp add: exists_file_def read_file_def noteExt_def createNote_def cout_def)

subsection \<open>Validation of the title\<close>

text \<open>
  Claim C6. \<open>validateInput\<close> accepts a title exactly when it holds none of the
  characters \<open>< > : " / \ | ? *\<close> and is shorter than 255 characters. For a command
  line of two words whose argument it rejects, the dispatcher selects no note operation:
  it prints that the argument is not a valid filename and leaves the world otherwise as
  it was.
\<close>

theorem validateInput_rejects:
  "(validateInput title \<longleftrightarrow>
      (\<forall>c\<in>set title. c \<notin> {CHR ''<'', CHR ''>'', CHR '':'', CHR 0x22, CHR ''/'', CHR 0x5C,
                              CHR ''|'', CHR ''?'', CHR ''*''})
      \<and> length title < 255)
   \<and> (countWords cmd = 2 \<and> \<not> validateInput (extractArg cmd) \<longrightarrow>
        dispatch cmd = InvalidFilename (extractArg cmd)
        \<and> perform (dispatch cmd) w
            = Return (cout ([apostrophe] @ extractArg cmd @ [apostrophe]
                            @ '' is not a valid filename.'' @ [nl, nl]) w))"
proof -
  have a: "validateInput title \<longleftrightarrow>
      (\<forall>c\<in>set title. c \<notin> {CHR ''<'', CHR ''>'', CHR '':'', CHR 0x22, CHR ''/'', CHR 0x5C,
                              CHR ''|'', CHR ''?'', CHR ''*''})
      \<and> length title < 255"
    by (simp add: validateInput_iff invalidChars_def)
  have b: "dispatch cmd = InvalidFilename (extractArg cmd)"
    if "countWords cmd = 2" "\<not> validateInput (extractArg cmd)"
    using that two_words_not_plain [OF that(1)] by (simp add: dispatch_def)
  from a b show ?thesis by simp
qed

theorem validateInput_rejects_witness:
  "\<not> validateInput ''a:b'' \<and> validateInput ''ab''
   \<and> countWords ''new a:b'' = 2 \<and> \<not> validateInput (extractArg ''new a:b'')
   \<and> dispatch ''new a:b'' = InvalidFilename ''a:b''"
  using validateInput_rejects [of "''a:b''" "''new a:b''"]
    validateInput_rejects [of "''ab''" "''new a:b''"]
  by (simp add: countWords_def countWords_loop.simps isspace_def extractArg_def)

subsection \<open>Titles of more than one word\<close>

text \<open>
  Claim C10 fails as stated: a title that holds a space can reach a note operation. The
  line \<open>new foo\<close> followed by a space has two words, and its argument, the title
  \<open>foo\<close> with the trailing space, passes validation; the note is created.
\<close>

theorem title_with_space_counterexample:
  "dispatch ''new foo '' = Create ''foo ''
   \<and> CHR '' '' \<in> set ''foo ''
   \<and> map_option dir (returned (perform (dispatch ''new foo '')
         \<lparr>dir = Dir [], clock = (\<lambda>k. ''t''), ticks = 0, input = [''!quit''], out = []\<rparr>))
     = Some (Dir [(''foo .cppn'', ''foo  | t'' @ [nl, nl])])"
  by (simp add: countWords_def countWords_loop.simps isspace_def dispatch_def extractArg_def
      validateInput_def invalidChars_def returned_def createNote_def exists_file_def read_file_def
      getCurrentTime_def openNote_def substr_def saveNote_def write_file_def noteExt_def headSep_def
      cout_def clearScreen_def)

text \<open>
  Claim C10, amended. A line that starts with \<open>new\<close>, \<open>app\<close>, \<open>del\<close> or
  \<open>ow\<close> and a space, and in which \<open>countWords\<close> counts three or more words,
  selects no note operation: the missing-argument error is printed. A title reaches a
  note operation only as the argument of a line of exactly two words, so every title that
  is created, loaded or deleted is one word, with spaces before or after it at most.
\<close>

theorem dispatch_three_words:
  "((take 4 cmd = ''new '' \<or> take 4 cmd = ''app '' \<or> take 4 cmd = ''del '' \<or> take 3 cmd = ''ow '')
      \<and> 3 \<le> countWords cmd \<longrightarrow>
        dispatch cmd = MissingArgument
        \<and> perform (dispatch cmd) w = Return (cout (''ERROR: Missing argument (filename).'' @ [nl, nl]) w))
   \<and> (dispatch cmd' = Create t \<or> dispatch cmd' = Append t \<or> dispatch cmd' = Overwrite t
        \<or> dispatch cmd' = Delete t \<longrightarrow>
        t = extractArg cmd' \<and> countWords cmd' = 2 \<and> countWords t = 1)"
  using starts_missing [of cmd] dispatched_title [of cmd' t] by auto

theorem dispatch_three_words_witness:
  "take 4 ''new a b'' = ''new '' \<and> 3 \<le> countWords ''new a b''
   \<and> dispatch ''new a b'' = MissingArgument
   \<and> perform (dispatch ''new a b'')
         \<lparr>dir = Dir [], clock = (\<lambda>k. ''t''), ticks = 0, input = [''!quit''], out = []\<rparr>
       = Return \<lparr>dir = Dir [], clock = (\<lambda>k. ''t''), ticks = 0, input = [''!quit''],
                 out = [Print (''ERROR: Missing argument (filename).'' @ [nl, nl])]\<rparr>
   \<and> dispatch ''new  a'' = Create '' a'' \<and> countWords ''new  a'' = 2 \<and> countWords '' a'' = 1"
  using dispatch_three_words [of "''new a b''"
      "\<lparr>dir = Dir [], clock = (\<lambda>k. ''t''), ticks = 0, input = [''!quit''], out = []\<rparr>"
      "''new  a''" "'' a''"]
  by (simp add: countWords_def countWords_loop.simps isspace_def dispatch_def extractArg_def
      validateInput_def invalidChars_def cout_def)

subsection \<open>Appending to a note\<close>




subsection \<open>Overwriting a note\<close>

text \<open>
  Claim C2 fails as stated for a file whose header is well formed and names another
  note: the header that is saved is built from the title of the command. The file of
  the note \<open>a\<close> has the header \<open>b | t\<close>; after \<open>ow a\<close> and the typed line
  \<open>y\<close> its header is \<open>a | t\<close>.
\<close>

theorem overwrite_header_counterexample:
  "fst (getline (''b | t'' @ [nl, nl] @ ''old'' @ [nl])) = ''b | t''
   \<and> map_option dir (returned (perform (dispatch ''ow a'')
        \<lparr>dir = Dir [(''a.cppn'', ''b | t'' @ [nl, nl] @ ''old'' @ [nl])], clock = (\<lambda>k. ''u''),
         ticks = 0, input = [''y'', ''!quit''], out = []\<rparr>))
     = Some (Dir [(''a.cppn'', ''a | t'' @ [nl, nl] @ ''y'' @ [nl])])
   \<and> fst (getline (''a | t'' @ [nl, nl] @ ''y'' @ [nl])) = ''a | t''
   \<and> ''a | t'' \<noteq> ''b | t''"
  by (simp add: eval_defs)

text \<open>
  Claim C2, amended. Let the first line of the file of a one-word, valid title be a
  header \<open>name | timestamp\<close> with a name free of \<open>|\<close>. Then \<open>ow title\<close>, the
  typed lines \<open>Y\<close> and the sentinel leave in the file the header line
  \<open>title | timestamp\<close> with the prior timestamp, a blank line and, as the whole body,
  each line of \<open>Y\<close> with its newline: whatever stood behind the header before is
  discarded. The header line is the prior one exactly when the stored name is the title
  of the command, as in every file the program writes. No other file changes.
\<close>

theorem overwrite_replaces_body:
  assumes "countWords title = 1" "validateInput title" "nl \<notin> set title"
    and "read_file (dir w) (title @ noteExt) = Some file"
    and "fst (getline file) = nm @ headSep @ ts" "CHR ''|'' \<notin> set nm"
    and "input w = Y @ ''!quit'' # rest" "''!quit'' \<notin> set Y"
  shows "\<exists>w' file'. perform (dispatch (''ow '' @ title)) w = Return w'
           \<and> read_file (dir w') (title @ noteExt) = Some file'
           \<and> file' = title @ headSep @ ts @ [nl, nl] @ concat (map (\<lambda>l. l @ [nl]) Y)
           \<and> fst (getline file') = title @ headSep @ ts
           \<and> (fst (getline file') = fst (getline file) \<longleftrightarrow> nm = title)
           \<and> (\<forall>p. p \<noteq> title @ noteExt \<longrightarrow> read_file (dir w') p = read_file (dir w) p)
           \<and> input w' = rest"
proof -
  let ?h = "nm @ headSep @ ts"
  let ?n = "\<lparr>name = title, timestamp = ts, content = ?h @ [nl, nl]\<rparr>"
  let ?typed = "concat (map (\<lambda>l. l @ [nl]) Y)"
  obtain fs where fs: "dir w = Dir fs"
    using read_file_Some_Dir [OF assms(4)] by blast
  have ld: "loadedNote title False file = Inr ?n"
    using loadedNote_overwrite_any [OF assms(6,5)] by simp
  have nonl: "nl \<notin> set ?h"
    using nl_notin_fst_getline [of "file"] assms(5) by simp
  have rl: "readLines (input (clearScreen w)) [] = Some (?typed, rest)"
    using readLines_sentinel [OF assms(8), where rest=rest and acc="[]"] assms(7) by simp
  have "content ?n = ?h @ [nl, nl] @ []" by simp
  with nonl obtain w' where w': "openNote ?n (clearScreen w) = Return w'"
      "dir w' = Dir (AList.update (name ?n @ noteExt)
                 (name ?n @ headSep @ timestamp ?n @ [nl, nl] @ [] @ ?typed) fs)"
      "input w' = rest"
    using openNote_blank_line [of ?h ?n "[]" "clearScreen w" ?typed rest fs] rl fs
    by auto
  have p: "perform (dispatch (''ow '' @ title)) w = Return w'"
    using dispatch_ow [OF assms(1,2)] assms(4) ld w'(1) by (simp add: loadNote_def)
  have "nl \<notin> set (title @ headSep @ ts)"
    using assms(3) nonl nl_notin_headSep by simp
  then have "getline ((title @ headSep @ ts) @ nl # (nl # ?typed)) = (title @ headSep @ ts, nl # ?typed)"
    by (rule getline_line)
  then have g: "fst (getline (title @ headSep @ ts @ [nl, nl] @ ?typed)) = title @ headSep @ ts"
    by simp
  have "(title @ headSep @ ts = fst (getline file)) = (nm = title)"
    using assms(5) by auto
  with p g show ?thesis
    using w'(2,3) fs by (simp add: read_file_update)
qed

theorem overwrite_replaces_body_witness:
  "countWords ''a'' = 1 \<and> validateInput ''a'' \<and> nl \<notin> set ''a''
   \<and> fst (getline (''a | t'' @ [nl] @ ''old'')) = ''a'' @ headSep @ ''t''
   \<and> CHR ''|'' \<notin> set ''a'' \<and> ''!quit'' \<notin> set [''y'']
   \<and> map_option (\<lambda>w'. (read_file (dir w') ''a.cppn'', input w'))
        (returned (perform (dispatch ''ow a'')
           \<lparr>dir = Dir [(''a.cppn'', ''a | t'' @ [nl] @ ''old'')], clock = (\<lambda>k. ''u''),
            ticks = 0, input = [''y'', ''!quit'', ''help''], out = []\<rparr>))
     = Some (Some (''a | t'' @ [nl, nl] @ ''y'' @ [nl]), [''help''])
   \<and> fst (getline (''a | t'' @ [nl, nl] @ ''y'' @ [nl])) = fst (getline (''a | t'' @ [nl] @ ''old''))"
  using overwrite_replaces_body [of "''a''"
      "\<lparr>dir = Dir [(''a.cppn'', ''a | t'' @ [nl] @ ''old'')], clock = (\<lambda>k. ''u''),
        ticks = 0, input = [''y'', ''!quit'', ''help''], out = []\<rparr>"
      "''a | t'' @ [nl] @ ''old''" "''a''" "''t''" "[''y'']" "[''help'']"]
  by (simp add: eval_defs)

subsection \<open>Saving and loading again\<close>

text \<open>
  Claim C3. Let the content of a note be its header line, a blank line and body lines
  that each end with a newline, with a name free of \<open>|\<close> and of newlines and a
  timestamp free of newlines, as every note of the program has. After \<open>saveNote\<close> the
  file holds that content, and loading the title in append mode builds the very same
  note: the same name, timestamp and content, which \<open>loadNote\<close> passes to the editor.
\<close>

theorem save_load_roundtrip:
  fixes n :: Note
  assumes "content n = name n @ headSep @ timestamp n @ [nl, nl] @ concat (map (\<lambda>l. l @ [nl]) ls)"
    and "CHR ''|'' \<notin> set (name n)" "nl \<notin> set (name n)" "nl \<notin> set (timestamp n)"
    and "exists_dir (dir w)"
  shows "read_file (dir (saveNote n w)) (name n @ noteExt) = Some (content n)
         \<and> loadedNote (name n) True (content n) = Inr n
         \<and> loadNote (name n) True (saveNote n w) = openNote n (clearScreen (saveNote n w))"
proof -
  obtain fs where fs: "dir w = Dir fs"
    using assms(5) by (cases "dir w") (simp_all add: exists_dir_def)
  then have rd: "read_file (dir (saveNote n w)) (name n @ noteExt) = Some (content n)"
    by (simp add: saveNote_def write_file_def read_file_update)
  have "loadedNote (name n) True (content n)
      = Inr \<lparr>name = name n, timestamp = timestamp n, content = content n\<rparr>"
    using loadedNote_append [OF assms(2,3,4) lines_end, of ls] assms(1) by simp
  then have ld: "loadedNote (name n) True (content n) = Inr n" by simp
  from rd ld show ?thesis by (simp add: loadNote_def)
qed

theorem save_load_roundtrip_witness:
  "CHR ''|'' \<notin> set ''a'' \<and> nl \<notin> set ''a'' \<and> nl \<notin> set ''t''
   \<and> exists_dir (Dir [])
   \<and> read_file (dir (saveNote \<lparr>name = ''a'', timestamp = ''t'',
                                 content = ''a | t'' @ [nl, nl] @ ''x'' @ [nl] @ ''y'' @ [nl]\<rparr>
                       \<lparr>dir = Dir [], clock = (\<lambda>k. ''u''), ticks = 0, input = [], out = []\<rparr>))
        ''a.cppn''
       = Some (''a | t'' @ [nl, nl] @ ''x'' @ [nl] @ ''y'' @ [nl])
   \<and> loadedNote ''a'' True (''a | t'' @ [nl, nl] @ ''x'' @ [nl] @ ''y'' @ [nl])
       = Inr \<lparr>name = ''a'', timestamp = ''t'',
              content = ''a | t'' @ [nl, nl] @ ''x'' @ [nl] @ ''y'' @ [nl]\<rparr>"
  using save_load_roundtrip [of
      "\<lparr>name = ''a'', timestamp = ''t'', content = ''a | t'' @ [nl, nl] @ ''x'' @ [nl] @ ''y'' @ [nl]\<rparr>"
      "[''x'', ''y'']"
      "\<lparr>dir = Dir [], clock = (\<lambda>k. ''u''), ticks = 0, input = [], out = []\<rparr>"]
  by (simp add: eval_defs)

subsection \<open>The name and the timestamp of a loaded note\<close>

text \<open>
  Claim C7 fails as stated: the name of the loaded note is the title given to the
  command, not the text before the separator in the stored header. The file loaded for
  the title \<open>a\<close> has the header \<open>b | t\<close>; the note is named \<open>a\<close>.
\<close>

theorem loadNote_header_counterexample:
  "str_find (fst (getline (''b | t'' @ [nl, nl]))) headSep = Some 1
   \<and> take 1 (fst (getline (''b | t'' @ [nl, nl]))) = ''b''
   \<and> loadedNote ''a'' True (''b | t'' @ [nl, nl])
       = Inr \<lparr>name = ''a'', timestamp = ''t'', content = ''b | t'' @ [nl, nl]\<rparr>"
  by (simp add: loadedNote_def getline_def headSep_def substr_def read_rest.simps)

text \<open>
  Claim C7, amended. When \<open>loadNote\<close> opens the file of a title and the first line of
  the file holds the separator, the note it builds and passes to the editor has the
  text behind the first separator of that line as its timestamp, and the title given
  to the command as its name.
\<close>

theorem loadNote_title_and_timestamp:
  assumes "read_file (dir w) (title @ noteExt) = Some file"
    and "str_find (fst (getline file)) headSep = Some sep"
  shows "\<exists>n. loadedNote title appendMode file = Inr n
           \<and> loadNote title appendMode w = openNote n (clearScreen w)
           \<and> name n = title
           \<and> timestamp n = drop (sep + length headSep) (fst (getline file))"
proof -
  obtain h r where g: "getline file = (h, r)" by (cases "getline file")
  with assms(2) have f: "str_find h headSep = Some sep" by simp
  then have "sep + length headSep \<le> length h" by (rule str_find_bound)
  then have "substr h (sep + length headSep) = Inr (drop (sep + length headSep) h)"
    by (simp add: substr_def)
  then show ?thesis
    using assms(1) g f by (simp add: loadedNote_def loadNote_def)
qed

theorem loadNote_title_and_timestamp_witness:
  "read_file (Dir [(''n.cppn'', ''m | t | u'' @ [nl, nl])]) (''n'' @ noteExt)
     = Some (''m | t | u'' @ [nl, nl])
   \<and> str_find (fst (getline (''m | t | u'' @ [nl, nl]))) headSep = Some 1
   \<and> loadedNote ''n'' False (''m | t | u'' @ [nl, nl])
       = Inr \<lparr>name = ''n'', timestamp = ''t | u'', content = ''m | t | u'' @ [nl, nl]\<rparr>"
  using loadNote_title_and_timestamp [of
      "\<lparr>dir = Dir [(''n.cppn'', ''m | t | u'' @ [nl, nl])], clock = (\<lambda>k. ''u''), ticks = 0,
        input = [], out = []\<rparr>" "''n''" "''m | t | u'' @ [nl, nl]" 1 False]
  by (simp add: eval_defs)

subsection \<open>The format of the files in the directory\<close>

text \<open>
  Claim C8. A command line holds no newline and a reading of the clock holds none. Then
  after any command every note file either is the file it was before the command or
  has the format: a header line that starts with the title and the separator, a blank
  line, and a body that may be empty. So every file that create, append or overwrite
  writes has the format, and when all note files have it before a run of the prompt
  loop, all have it when the loop ends.
\<close>

theorem note_format_invariant:
  "(perform (dispatch cmd) w = Return w' \<and> nl \<notin> set cmd \<and> nl \<notin> set (clock w (ticks w))
      \<and> read_file (dir w') (title @ noteExt) = Some f \<longrightarrow>
        read_file (dir w) (title @ noteExt) = Some f \<or> note_format title f)
   \<and> (promptHandler v = Return v' \<and> (\<forall>l\<in>set (input v). nl \<notin> set l)
      \<and> (\<forall>k. nl \<notin> set (clock v k))
      \<and> (\<forall>t g. read_file (dir v) (t @ noteExt) = Some g \<longrightarrow> note_format t g)
      \<and> read_file (dir v') (title' @ noteExt) = Some f' \<longrightarrow>
        note_format title' f')"
  using perform_format [of cmd w w' title f] promptHandler_format [of v v'] by blast

theorem note_format_invariant_witness:
  "perform (dispatch ''new a'')
       \<lparr>dir = Dir [(''b.cppn'', ''junk'')], clock = (\<lambda>k. ''t''), ticks = 0,
        input = [''x'', ''!quit''], out = []\<rparr>
     = Return \<lparr>dir = Dir [(''b.cppn'', ''junk''), (''a.cppn'', ''a | t'' @ [nl, nl] @ ''x'' @ [nl])],
               clock = (\<lambda>k. ''t''), ticks = 1, input = [],
               out = [ClearScreen, Print (''a | t'' @ [nl]),
                      Print (''Type !quit on a new line to exit.'' @ [nl, nl]), Print [],
                      Print (''a successfully saved!'' @ [nl, nl])]\<rparr>
   \<and> nl \<notin> set ''new a'' \<and> nl \<notin> set ''t''
   \<and> note_format ''a'' (''a | t'' @ [nl, nl] @ ''x'' @ [nl])
   \<and> promptHandler
         \<lparr>dir = Dir [], clock = (\<lambda>k. ''t''), ticks = 0,
          input = [''new a'', ''x'', ''!quit'', ''ow a'', ''y'', ''!quit'', ''exit''], out = []\<rparr>
       = Return
           \<lparr>dir = Dir [(''a.cppn'', ''a | t'' @ [nl, nl] @ ''y'' @ [nl])], clock = (\<lambda>k. ''t''),
            ticks = 1, input = [],
            out = [Print ''$~ '', ClearScreen, Print (''a | t'' @ [nl]),
                   Print (''Type !quit on a new line to exit.'' @ [nl, nl]), Print [],
                   Print (''a successfully saved!'' @ [nl, nl]),
                   Print ''$~ '', ClearScreen, ClearScreen, Print (''a | t'' @ [nl]),
                   Print (''Type !quit on a new line to exit.'' @ [nl, nl]), Print [],
                   Print (''a successfully saved!'' @ [nl, nl]),
                   Print ''$~ '']\<rparr>
   \<and> note_format ''a'' (''a | t'' @ [nl, nl] @ ''y'' @ [nl])"
  using note_format_invariant [of "''new a''"
      "\<lparr>dir = Dir [(''b.cppn'', ''junk'')], clock = (\<lambda>k. ''t''), ticks = 0,
        input = [''x'', ''!quit''], out = []\<rparr>"
      "\<lparr>dir = Dir [(''b.cppn'', ''junk''), (''a.cppn'', ''a | t'' @ [nl, nl] @ ''x'' @ [nl])],
               clock = (\<lambda>k. ''t''), ticks = 1, input = [],
               out = [ClearScreen, Print (''a | t'' @ [nl]),
                      Print (''Type !quit on a new line to exit.'' @ [nl, nl]), Print [],
                      Print (''a successfully saved!'' @ [nl, nl])]\<rparr>"
      "''a''" "''a | t'' @ [nl, nl] @ ''x'' @ [nl]"
      "\<lparr>dir = Dir [], clock = (\<lambda>k. ''t''), ticks = 0,
          input = [''new a'', ''x'', ''!quit'', ''ow a'', ''y'', ''!quit'', ''exit''], out = []\<rparr>"
      "\<lparr>dir = Dir [(''a.cppn'', ''a | t'' @ [nl, nl] @ ''y'' @ [nl])], clock = (\<lambda>k. ''t''), ticks = 1,
        input = [],
        out = [Print ''$~ '', ClearScreen, Print (''a | t'' @ [nl]),
               Print (''Type !quit on a new line to exit.'' @ [nl, nl]), Print [],
               Print (''a successfully saved!'' @ [nl, nl]),
               Print ''$~ '', ClearScreen, ClearScreen, Print (''a | t'' @ [nl]),
               Print (''Type !quit on a new line to exit.'' @ [nl, nl]), Print [],
               Print (''a successfully saved!'' @ [nl, nl]),
               Print ''$~ '']\<rparr>"
      "''a''" "''a | t'' @ [nl, nl] @ ''y'' @ [nl]"]
  by (simp add: eval_defs promptHandler.simps note_format_def)

subsection \<open>Listing without a directory\<close>

text \<open>
  Claim C4 does not hold of the code. \<open>listNotes\<close> constructs the directory iterator
  before it checks that the directory exists, and the constructor throws when the
  directory is missing: the exception is not caught and the process ends, also from the
  prompt loop on the line \<open>list\<close>. The message for a missing directory is printed in
  no state of the world.
\<close>

theorem listNotes_missing_directory:
  "(dir w = Missing \<longrightarrow>
      listNotes w = Abort filesystem_error
      \<and> (input w = ''list'' # rest \<longrightarrow> promptHandler w = Abort filesystem_error))
   \<and> listNotes w \<noteq> Return (cout (''ERROR: Could not find save directory.'' @ [nl, nl]) w)"
proof -
  have a: "listNotes w = Abort filesystem_error" if "dir w = Missing"
    using that by (simp add: listNotes_def directory_iterator_def)
  have d: "dispatch ''list'' = List" by (simp add: dispatch_def)
  have b: "promptHandler w = Abort filesystem_error" if "dir w = Missing" "input w = ''list'' # rest"
    using that d by (subst promptHandler.simps) (simp add: listNotes_def directory_iterator_def)
  have c: "listNotes w \<noteq> Return (cout (''ERROR: Could not find save directory.'' @ [nl, nl]) w)"
  proof (cases "dir w")
    case Missing
    then show ?thesis using a by simp
  next
    case (Dir fs)
    then show ?thesis
      by (simp add: listNotes_def directory_iterator_def exists_dir_def cout_neq)
  qed
  from a b c show ?thesis by blast
qed

theorem listNotes_missing_directory_witness:
  "listNotes \<lparr>dir = Missing, clock = (\<lambda>k. ''t''), ticks = 0, input = [''list'', ''exit''], out = []\<rparr>
     = Abort filesystem_error
   \<and> promptHandler \<lparr>dir = Missing, clock = (\<lambda>k. ''t''), ticks = 0, input = [''list'', ''exit''],
                     out = []\<rparr>
     = Abort filesystem_error"
  using listNotes_missing_directory
    [of "\<lparr>dir = Missing, clock = (\<lambda>k. ''t''), ticks = 0, input = [''list'', ''exit''], out = []\<rparr>"
      "[''exit'']"]
  by simp
end
